theory Spec2Isabelle
  imports Main
begin

section \<open>The web monitor: a shallow embedding of monitor.py\<close>

text \<open>
  The script fetches every configured URL, hashes the body, compares the digest with the
  one stored by the previous run, collects a list of change records, overwrites the hash
  file with the digests of this run and writes an XML report.

  What the script does beyond computing values is made explicit here:
  \<^item> the hash file, the remote servers, the system clock and the console are fields of a
    \<open>world\<close> record that every function takes and returns;
  \<^item> the only exception the loop catches, \<open>requests.exceptions.RequestException\<close>, is a
    constructor of the result of a fetch;
  \<^item> an exception the script does not catch ends the run: the functions that can meet
    one (\<open>load_hash_file\<close>, \<open>try_check_targets\<close>) return a sum, with the exception on the
    left;
  \<^item> \<open>hashlib.md5(...).hexdigest()\<close> is a parameter \<open>md5\<close> of the functions that hash;
  \<^item> the one second sleep after every target is real time and is left out.
  Python strings and byte strings are both lists of HOL characters.
\<close>

subsection \<open>Data\<close>

type_synonym bytes = "char list"

text \<open>
  The states of \<open>url_hashes.json\<close> in which lines 21 to 26 run to their end: the path
  does not exist, \<open>json.load\<close> raises \<open>JSONDecodeError\<close>, or \<open>json.load\<close> returns the
  decoded object. The object is the one \<open>json.dump\<close> wrote in line 79: a dictionary from
  names to digests. The states in which lines 23 and 24 raise something else are the
  \<open>Unhandled\<close> ones of \<open>hash_file\<close> below. A file whose JSON is not an object of
  strings is not modelled: the script writes none.
\<close>

datatype stored_file =
    Missing
  | Undecodable
  | Decoded "string \<rightharpoonup> string"

text \<open>
  The outcome of lines 34 and 35 for one URL: \<open>requests.get\<close> or \<open>raise_for_status\<close>
  raises a \<open>RequestException\<close> (timeouts, connection errors and \<open>HTTPError\<close> are
  subclasses) whose message is the string, or the response's \<open>content\<close> is at hand.
\<close>

datatype fetched =
    RequestException string
  | Content bytes

text \<open>The dictionaries appended to \<open>changes_detected\<close>, with their five keys.\<close>

record change =
  name :: string
  url :: string
  timestamp :: string
  status :: string
  hash_change :: string

text \<open>
  The lines the script prints. The printed texts start with symbols outside ASCII, so a
  line is kept as the format it instantiates together with the values filled in.
\<close>

datatype console_line =
    DecodeWarning
  | ChangeDetected string
  | NoChange string
  | ErrorChecking string string string
  | ReportWritten
  | Started
  | Complete

text \<open>
  An \<open>xml.etree.ElementTree\<close> element: its \<open>tag\<close>, its \<open>text\<close> (\<open>None\<close> until
  assigned; the selector is \<open>etext\<close>) and its children.
\<close>

datatype element = Element (tag: string) (etext: "string option") (children: "element list")

text \<open>
  Everything outside the script that a run reads or writes. \<open>clock k\<close> is what the
  \<open>k\<close>-th evaluation of \<open>datetime.now().isoformat()\<close> returns, \<open>reads\<close> counts the
  evaluations so far.
\<close>

record world =
  hash_storage_file :: stored_file
  remote :: "string \<Rightarrow> fetched"
  clock :: "nat \<Rightarrow> string"
  reads :: nat
  console :: "console_line list"
  xml_output_file :: "element option"

subsection \<open>Configuration\<close>

definition MONITORED_URLS :: "(string \<times> string) list" where
  "MONITORED_URLS =
     [(''Google_Homepage'', ''https://www.google.com''),
      (''UWM Press Releases'', ''https://www.uwm.com/press-releases'')]"

subsection \<open>check_for_changes\<close>

text \<open>Lines 20 to 26: the dictionary of the last run, and the warning if there is one.\<close>

definition load :: "stored_file \<Rightarrow> console_line list \<times> (string \<rightharpoonup> string)" where
  "load f =
     (case f of
        Missing \<Rightarrow> ([], Map.empty)
      | Undecodable \<Rightarrow> ([DecodeWarning], Map.empty)
      | Decoded last_hashes \<Rightarrow> ([], last_hashes))"

text \<open>The local variables of the loop, and the two effects of its body.\<close>

record locals =
  current_hashes :: "string \<rightharpoonup> string"
  changes_detected :: "change list"
  printed :: "console_line list"
  now_calls :: nat

text \<open>
  Lines 32 to 72, one pass of the loop for one item of the configuration. The loop
  variables \<open>name\<close> and \<open>url\<close> are \<open>nm\<close> and \<open>addr\<close> here, since the record fields
  have taken the names. The three branches of lines 42, 51 and 60 are tested in the
  order of the source.
\<close>

definition loop_body ::
  "(bytes \<Rightarrow> string) \<Rightarrow> (string \<Rightarrow> fetched) \<Rightarrow> (nat \<Rightarrow> string) \<Rightarrow> (string \<rightharpoonup> string)
     \<Rightarrow> locals \<Rightarrow> string \<times> string \<Rightarrow> locals" where
  "loop_body md5 get now last_hashes s item =
     (case item of (nm, addr) \<Rightarrow>
       (case get addr of
          Content body \<Rightarrow>
            (let content_hash = md5 body;
                 s1 = s\<lparr>current_hashes := (current_hashes s)(nm \<mapsto> content_hash)\<rparr>
             in if last_hashes nm \<noteq> None \<and> the (last_hashes nm) \<noteq> content_hash then
                  s1\<lparr>printed := printed s1 @ [ChangeDetected nm],
                     changes_detected := changes_detected s1 @
                       [\<lparr>name = nm, url = addr, timestamp = now (now_calls s1),
                         status = ''Content Changed'',
                         hash_change = ''Old: '' @ take 8 (the (last_hashes nm)) @
                           ''... -> New: '' @ take 8 content_hash @ ''...''\<rparr>],
                     now_calls := Suc (now_calls s1)\<rparr>
                else if last_hashes nm = None then
                  s1\<lparr>changes_detected := changes_detected s1 @
                       [\<lparr>name = nm, url = addr, timestamp = now (now_calls s1),
                         status = ''Initial Check (No history recorded)'',
                         hash_change = ''Initial Hash: '' @ take 8 content_hash @ ''...''\<rparr>],
                     now_calls := Suc (now_calls s1)\<rparr>
                else
                  s1\<lparr>printed := printed s1 @ [NoChange nm]\<rparr>)
        | RequestException e \<Rightarrow>
            s\<lparr>printed := printed s @ [ErrorChecking nm addr e],
              changes_detected := changes_detected s @
                [\<lparr>name = nm, url = addr, timestamp = now (now_calls s),
                  status = ''Error: '' @ e,
                  hash_change = ''N/A''\<rparr>],
              now_calls := Suc (now_calls s)\<rparr>))"

text \<open>Line 31: the loop over the items of the configuration, in their order.\<close>

fun loop ::
  "(bytes \<Rightarrow> string) \<Rightarrow> (string \<Rightarrow> fetched) \<Rightarrow> (nat \<Rightarrow> string) \<Rightarrow> (string \<rightharpoonup> string)
     \<Rightarrow> (string \<times> string) list \<Rightarrow> locals \<Rightarrow> locals" where
  "loop md5 get now last_hashes [] s = s"
| "loop md5 get now last_hashes (item # items) s =
     loop md5 get now last_hashes items (loop_body md5 get now last_hashes s item)"

text \<open>
  The whole function for a configuration \<open>targets\<close>: load, loop, overwrite the hash file
  with \<open>current_hashes\<close> (lines 78 and 79), return \<open>changes_detected\<close>.
\<close>

definition check_targets ::
  "(bytes \<Rightarrow> string) \<Rightarrow> (string \<times> string) list \<Rightarrow> world \<Rightarrow> change list \<times> world" where
  "check_targets md5 targets w =
     (case load (hash_storage_file w) of (warning, last_hashes) \<Rightarrow>
        (let s = loop md5 (remote w) (clock w) last_hashes targets
                   \<lparr>current_hashes = Map.empty, changes_detected = [],
                    printed = console w @ warning, now_calls = reads w\<rparr>
         in (changes_detected s,
             w\<lparr>hash_storage_file := Decoded (current_hashes s),
               console := printed s,
               reads := now_calls s\<rparr>)))"

definition check_for_changes :: "(bytes \<Rightarrow> string) \<Rightarrow> world \<Rightarrow> change list \<times> world" where
  "check_for_changes md5 w = check_targets md5 MONITORED_URLS w"

subsection \<open>generate_xml_report\<close>

text \<open>Python's \<open>str\<close> of a length: the decimal digits, most significant first.\<close>

definition digit :: "nat \<Rightarrow> char" where
  "digit d = ''0123456789'' ! d"

fun str :: "nat \<Rightarrow> string" where
  "str n = (if n < 10 then [digit n] else str (n div 10) @ [digit (n mod 10)])"

declare str.simps [simp del]

text \<open>
  \<open>ET.SubElement(parent, tag)\<close> creates an element and appends it to the children of
  \<open>parent\<close>. The source appends the new element first and assigns its text, or its own
  children, afterwards through the shared reference; here the child is complete when it
  is appended, which gives the same tree.
\<close>

definition SubElement :: "element \<Rightarrow> element \<Rightarrow> element" where
  "SubElement parent child = Element (tag parent) (etext parent) (children parent @ [child])"

text \<open>Lines 97 to 103: the \<open>ChangeItem\<close> of one change.\<close>

definition change_item :: "change \<Rightarrow> element" where
  "change_item c =
     (let item = Element ''ChangeItem'' None [];
          item = SubElement item (Element ''Name'' (Some (name c)) []);
          item = SubElement item (Element ''URL'' (Some (url c)) []);
          item = SubElement item (Element ''Timestamp'' (Some (timestamp c)) []);
          item = SubElement item (Element ''Status'' (Some (status c)) []);
          item = SubElement item (Element ''HashDetails'' (Some (hash_change c)) [])
      in item)"

text \<open>Line 96: the loop over the changes, each appended to the root.\<close>

fun add_items :: "element \<Rightarrow> change list \<Rightarrow> element" where
  "add_items root [] = root"
| "add_items root (c # cs) = add_items (SubElement root (change_item c)) cs"

text \<open>
  Lines 85 to 111. The tree is kept as it is before \<open>ET.indent\<close> and the serialisation:
  the indentation only puts white space between the elements.
\<close>

definition generate_xml_report :: "change list \<Rightarrow> world \<Rightarrow> world" where
  "generate_xml_report changes w =
     (let root = Element ''MonitoringReport'' None [];
          root = SubElement root
                   (Element ''Status''
                      (Some (if changes \<noteq> []
                             then str (length changes) @ '' Change(s) or Initial Check(s) Detected.''
                             else ''No changes detected since the last run.'')) []);
          root = SubElement root (Element ''TimestampGenerated'' (Some (clock w (reads w))) []);
          root = add_items root changes
      in w\<lparr>xml_output_file := Some root,
           reads := Suc (reads w),
           console := console w @ [ReportWritten]\<rparr>)"

text \<open>Lines 113 to 117: one invocation of the script.\<close>

definition main :: "(bytes \<Rightarrow> string) \<Rightarrow> world \<Rightarrow> world" where
  "main md5 w =
     (case check_for_changes md5 (w\<lparr>console := console w @ [Started]\<rparr>) of
        (recent_changes, w1) \<Rightarrow>
          (let w2 = generate_xml_report recent_changes w1
           in w2\<lparr>console := console w2 @ [Complete]\<rparr>))"

subsection \<open>Exceptions the script does not catch\<close>

text \<open>
  \<open>check_targets\<close> above is a run in which nothing is raised but what the script catches.
  The definitions of this section add the rest. Line 25 catches \<open>json.JSONDecodeError\<close>
  only: a file that is not UTF-8 makes line 24 raise \<open>UnicodeDecodeError\<close>, brackets
  nested too deep make it raise \<open>RecursionError\<close>, a file that cannot be opened makes
  line 23 raise \<open>OSError\<close>. Line 63 catches \<open>RequestException\<close> only: \<open>requests.get\<close> can
  raise a \<open>ValueError\<close> as well. An exception that is not caught ends the run where it is
  raised: nothing is saved and nothing is returned.
\<close>

datatype uncaught = UnicodeDecodeError | RecursionError | OSError | ValueError

text \<open>The hash file: in one of the three states that lines 21 to 26 handle, or raising.\<close>

datatype hash_file =
    Handled stored_file
  | Unhandled uncaught

text \<open>
  What \<open>requests.get\<close> returns when it returns: the fields of the response that line 35
  and line 38 read.
\<close>

record response =
  status_code :: nat
  reason :: string
  response_url :: string
  content :: bytes

text \<open>
  What \<open>requests.get\<close> does in line 34: it raises a \<open>RequestException\<close> with a message (a
  timeout, a connection error), it raises an exception that is not one, or it returns
  a response.
\<close>

datatype reply =
    Raises string
  | Escapes uncaught
  | Answers response

text \<open>
  \<open>Response.raise_for_status\<close> of the requests library, called in line 35: it raises
  \<open>HTTPError\<close>, a \<open>RequestException\<close>, for the status codes from 400 to 599 and returns for
  every other one. The result is the message of the exception if there is one.
\<close>

definition raise_for_status :: "response \<Rightarrow> string option" where
  "raise_for_status r =
     (if 400 \<le> status_code r \<and> status_code r < 500 then
        Some (str (status_code r) @ '' Client Error: '' @ reason r @ '' for url: '' @
              response_url r)
      else if 500 \<le> status_code r \<and> status_code r < 600 then
        Some (str (status_code r) @ '' Server Error: '' @ reason r @ '' for url: '' @
              response_url r)
      else None)"

text \<open>Lines 34 and 35 together: the exception that ends the run, or what the loop goes on with.\<close>

definition fetch :: "reply \<Rightarrow> uncaught + fetched" where
  "fetch r =
     (case r of
        Raises e \<Rightarrow> Inr (RequestException e)
      | Escapes x \<Rightarrow> Inl x
      | Answers resp \<Rightarrow>
          (case raise_for_status resp of
             Some msg \<Rightarrow> Inr (RequestException msg)
           | None \<Rightarrow> Inr (Content (content resp))))"

text \<open>Lines 20 to 26 on any hash file.\<close>

definition load_hash_file ::
  "hash_file \<Rightarrow> uncaught + console_line list \<times> (string \<rightharpoonup> string)" where
  "load_hash_file h =
     (case h of
        Unhandled x \<Rightarrow> Inl x
      | Handled f \<Rightarrow> Inr (load f))"

text \<open>
  One pass of the loop, the loop and the whole function, with the exceptions that are not
  caught. What a pass does once lines 34 and 35 are through is \<open>loop_body\<close>. The hash file
  and the servers are given apart from the world, whose clock, counter and console are
  used.
\<close>

definition try_body ::
  "(bytes \<Rightarrow> string) \<Rightarrow> (string \<Rightarrow> reply) \<Rightarrow> (nat \<Rightarrow> string) \<Rightarrow> (string \<rightharpoonup> string)
     \<Rightarrow> locals \<Rightarrow> string \<times> string \<Rightarrow> uncaught + locals" where
  "try_body md5 server now last_hashes s item =
     (case fetch (server (snd item)) of
        Inl x \<Rightarrow> Inl x
      | Inr got \<Rightarrow> Inr (loop_body md5 (\<lambda>addr. got) now last_hashes s item))"

fun try_loop ::
  "(bytes \<Rightarrow> string) \<Rightarrow> (string \<Rightarrow> reply) \<Rightarrow> (nat \<Rightarrow> string) \<Rightarrow> (string \<rightharpoonup> string)
     \<Rightarrow> (string \<times> string) list \<Rightarrow> locals \<Rightarrow> uncaught + locals" where
  "try_loop md5 server now last_hashes [] s = Inr s"
| "try_loop md5 server now last_hashes (item # items) s =
     (case try_body md5 server now last_hashes s item of
        Inl x \<Rightarrow> Inl x
      | Inr s' \<Rightarrow> try_loop md5 server now last_hashes items s')"

definition try_check_targets ::
  "(bytes \<Rightarrow> string) \<Rightarrow> (string \<times> string) list \<Rightarrow> hash_file \<Rightarrow> (string \<Rightarrow> reply) \<Rightarrow> world
     \<Rightarrow> uncaught + change list \<times> world" where
  "try_check_targets md5 targets h server w =
     (case load_hash_file h of
        Inl x \<Rightarrow> Inl x
      | Inr (warning, last_hashes) \<Rightarrow>
          (case try_loop md5 server (clock w) last_hashes targets
                  \<lparr>current_hashes = Map.empty, changes_detected = [],
                   printed = console w @ warning, now_calls = reads w\<rparr> of
             Inl x \<Rightarrow> Inl x
           | Inr s \<Rightarrow>
               Inr (changes_detected s,
                    w\<lparr>hash_storage_file := Decoded (current_hashes s),
                      console := printed s,
                      reads := now_calls s\<rparr>)))"

subsection \<open>What a run is expected to report\<close>

text \<open>
  The four outcomes of the classifier for one target, written as the specification lists
  them: the record that goes into the report when the time read is \<open>ts\<close>, or none for an
  unchanged target. \<open>loop_body\<close> is compared with it below.
\<close>

definition expected_change ::
  "(bytes \<Rightarrow> string) \<Rightarrow> (string \<Rightarrow> fetched) \<Rightarrow> (string \<rightharpoonup> string) \<Rightarrow> string
     \<Rightarrow> string \<times> string \<Rightarrow> change option" where
  "expected_change md5 get last_hashes ts item =
     (case item of (nm, addr) \<Rightarrow>
       (case get addr of
          RequestException e \<Rightarrow>
            Some \<lparr>name = nm, url = addr, timestamp = ts, status = ''Error: '' @ e,
                  hash_change = ''N/A''\<rparr>
        | Content body \<Rightarrow>
            (case last_hashes nm of
               None \<Rightarrow>
                 Some \<lparr>name = nm, url = addr, timestamp = ts,
                       status = ''Initial Check (No history recorded)'',
                       hash_change = ''Initial Hash: '' @ take 8 (md5 body) @ ''...''\<rparr>
             | Some old \<Rightarrow>
                 if old = md5 body then None
                 else Some \<lparr>name = nm, url = addr, timestamp = ts,
                            status = ''Content Changed'',
                            hash_change = ''Old: '' @ take 8 old @ ''... -> New: '' @
                              take 8 (md5 body) @ ''...''\<rparr>)))"

text \<open>A target is unchanged when it was fetched and its digest is the stored one.\<close>

definition unchanged ::
  "(bytes \<Rightarrow> string) \<Rightarrow> (string \<Rightarrow> fetched) \<Rightarrow> (string \<rightharpoonup> string) \<Rightarrow> string \<times> string \<Rightarrow> bool" where
  "unchanged md5 get last_hashes item =
     (case get (snd item) of
        RequestException e \<Rightarrow> False
      | Content body \<Rightarrow> last_hashes (fst item) = Some (md5 body))"

text \<open>
  The count in the status line of the report is specified as the number a string of
  decimal digits denotes; \<open>str\<close> is compared with it below.
\<close>

definition decimal_value :: "string \<Rightarrow> nat" where
  "decimal_value ds = foldl (\<lambda>a c. 10 * a + (of_char c - 48)) 0 ds"

text \<open>The local variables when the loop of a run on \<open>w\<close> starts (lines 20 to 29).\<close>

definition start :: "world \<Rightarrow> locals" where
  "start w =
     \<lparr>current_hashes = Map.empty, changes_detected = [],
      printed = console w @ fst (load (hash_storage_file w)), now_calls = reads w\<rparr>"

subsection \<open>A small world to run the script in\<close>

text \<open>
  The examples below run the script with a stand-in for the digest that is easy to read,
  on a world in which the first configured site answers \<open>hello\<close> and every other request
  times out.
\<close>

definition toy_md5 :: "bytes \<Rightarrow> string" where
  "toy_md5 body = ''digest-of-'' @ body"

definition toy_remote :: "string \<Rightarrow> fetched" where
  "toy_remote addr =
     (if addr = ''https://www.google.com'' then Content ''hello''
      else RequestException ''timed out'')"

definition toy_world :: "stored_file \<Rightarrow> world" where
  "toy_world f =
     \<lparr>hash_storage_file = f, remote = toy_remote, clock = (\<lambda>k. ''T'' @ str k), reads = 0,
      console = [], xml_output_file = None\<rparr>"





subsection \<open>The loop, one target at a time\<close>

lemma loop_body_changes:
  "changes_detected (loop_body md5 get now last_hashes s item) =
     changes_detected s @
       (case expected_change md5 get last_hashes (now (now_calls s)) item of
          None \<Rightarrow> [] | Some c \<Rightarrow> [c])"
  by (cases item)
    (auto simp: loop_body_def expected_change_def Let_def split: fetched.splits option.splits)

lemma loop_body_hashes:
  "current_hashes (loop_body md5 get now last_hashes s (nm, addr)) =
     (case get addr of
        Content body \<Rightarrow> (current_hashes s)(nm \<mapsto> md5 body)
      | RequestException e \<Rightarrow> current_hashes s)"
  by (simp add: loop_body_def Let_def split: fetched.splits)

lemma loop_changes_mono:
  "set (changes_detected s) \<subseteq> set (changes_detected (loop md5 get now last_hashes items s))"
proof (induction items arbitrary: s)
  case Nil
  then show ?case by simp
next
  case (Cons item items)
  have "set (changes_detected s) \<subseteq>
          set (changes_detected (loop_body md5 get now last_hashes s item))"
    by (simp add: loop_body_changes)
  also have "\<dots> \<subseteq> set (changes_detected (loop md5 get now last_hashes (item # items) s))"
    using Cons.IH by simp
  finally show ?case .
qed

lemma loop_changes_intro:
  "(nm, addr) \<in> set items \<Longrightarrow>
   (\<And>ts. expected_change md5 get last_hashes ts (nm, addr) = Some (c ts)) \<Longrightarrow>
     \<exists>k. c (now k) \<in> set (changes_detected (loop md5 get now last_hashes items s))"
proof (induction items arbitrary: s)
  case Nil
  then show ?case by simp
next
  case (Cons item items)
  show ?case
  proof (cases "item = (nm, addr)")
    case True
    have "c (now (now_calls s)) \<in>
            set (changes_detected (loop_body md5 get now last_hashes s item))"
      using True Cons.prems(2) by (simp add: loop_body_changes)
    then show ?thesis
      using loop_changes_mono by fastforce
  next
    case False
    then show ?thesis using Cons by simp
  qed
qed

lemma loop_changes_elim:
  "c \<in> set (changes_detected (loop md5 get now last_hashes items s)) \<Longrightarrow>
     c \<in> set (changes_detected s) \<or>
     (\<exists>item \<in> set items. \<exists>k. expected_change md5 get last_hashes (now k) item = Some c)"
proof (induction items arbitrary: s)
  case Nil
  then show ?case by simp
next
  case (Cons item items)
  from Cons.IH [OF Cons.prems [simplified]]
  show ?case
    by (auto simp: loop_body_changes split: option.splits)
qed

lemma loop_hashes_other:
  "nm \<notin> fst ` set items \<Longrightarrow>
     current_hashes (loop md5 get now last_hashes items s) nm = current_hashes s nm"
  by (induction items arbitrary: s) (auto simp: loop_body_hashes split: fetched.splits)

lemma loop_hashes_target:
  "distinct (map fst items) \<Longrightarrow> (nm, addr) \<in> set items \<Longrightarrow>
     current_hashes (loop md5 get now last_hashes items s) nm =
       (case get addr of
          Content body \<Rightarrow> Some (md5 body)
        | RequestException e \<Rightarrow> current_hashes s nm)"
proof (induction items arbitrary: s)
  case Nil
  then show ?case by simp
next
  case (Cons item items)
  show ?case
  proof (cases "item = (nm, addr)")
    case True
    then have "nm \<notin> fst ` set items" using Cons.prems(1) by auto
    then show ?thesis
      using True by (simp add: loop_hashes_other loop_body_hashes split: fetched.splits)
  next
    case False
    then have in_rest: "(nm, addr) \<in> set items" using Cons.prems(2) by simp
    have "nm \<in> fst ` set items" using in_rest by force
    then have "fst item \<noteq> nm" using Cons.prems(1) by auto
    then show ?thesis
      using Cons.IH [OF _ in_rest] Cons.prems(1)
      by (cases item) (simp add: loop_body_hashes split: fetched.splits)
  qed
qed

lemma printed_loop_body_mono:
  "set (printed s) \<subseteq> set (printed (loop_body md5 get now last_hashes s item))"
  by (cases item) (auto simp: loop_body_def Let_def split: fetched.splits)

lemma loop_printed_mono:
  "set (printed s) \<subseteq> set (printed (loop md5 get now last_hashes items s))"
proof (induction items arbitrary: s)
  case Nil
  then show ?case by simp
next
  case (Cons item items)
  have "set (printed s) \<subseteq> set (printed (loop_body md5 get now last_hashes s item))"
    by (rule printed_loop_body_mono)
  also have "\<dots> \<subseteq> set (printed (loop md5 get now last_hashes (item # items) s))"
    using Cons.IH by simp
  finally show ?case .
qed

lemma loop_body_unchanged_printed:
  "unchanged md5 get last_hashes (nm, addr) \<Longrightarrow>
     NoChange nm \<in> set (printed (loop_body md5 get now last_hashes s (nm, addr)))"
  by (auto simp: loop_body_def unchanged_def Let_def split: fetched.splits)

lemma loop_unchanged_printed:
  "(nm, addr) \<in> set items \<Longrightarrow> unchanged md5 get last_hashes (nm, addr) \<Longrightarrow>
     NoChange nm \<in> set (printed (loop md5 get now last_hashes items s))"
proof (induction items arbitrary: s)
  case Nil
  then show ?case by simp
next
  case (Cons item items)
  show ?case
  proof (cases "item = (nm, addr)")
    case True
    then show ?thesis
      using loop_body_unchanged_printed [OF Cons.prems(2)] loop_printed_mono by fastforce
  next
    case False
    then show ?thesis using Cons by simp
  qed
qed

lemma expected_change_None:
  "expected_change md5 get last_hashes ts item = None \<longleftrightarrow> unchanged md5 get last_hashes item"
  by (cases item) (auto simp: expected_change_def unchanged_def split: fetched.splits option.splits)

lemma expected_change_name:
  "expected_change md5 get last_hashes ts item = Some c \<Longrightarrow> name c = fst item \<and> url c = snd item"
  by (cases item) (auto simp: expected_change_def split: fetched.splits option.splits if_splits)

lemma loop_changes_names:
  "map name (changes_detected (loop md5 get now last_hashes items s)) =
     map name (changes_detected s) @
       map fst (filter (\<lambda>item. \<not> unchanged md5 get last_hashes item) items)"
proof (induction items arbitrary: s)
  case Nil
  then show ?case by simp
next
  case (Cons item items)
  show ?case
  proof (cases "expected_change md5 get last_hashes (now (now_calls s)) item")
    case None
    then have "unchanged md5 get last_hashes item"
      by (simp add: expected_change_None)
    then show ?thesis
      using None Cons.IH by (simp add: loop_body_changes)
  next
    case (Some c)
    then have "\<not> unchanged md5 get last_hashes item"
      using expected_change_None by (metis option.distinct(1))
    then show ?thesis
      using Some Cons.IH expected_change_name [OF Some] by (simp add: loop_body_changes)
  qed
qed

lemma check_targets_unfold:
  "check_targets md5 targets w =
     (let s = loop md5 (remote w) (clock w) (snd (load (hash_storage_file w))) targets (start w)
      in (changes_detected s,
          w\<lparr>hash_storage_file := Decoded (current_hashes s), console := printed s,
            reads := now_calls s\<rparr>))"
  by (simp add: check_targets_def start_def split: prod.splits)

lemma load_Decoded: "load (Decoded m) = ([], m)"
  by (simp add: load_def)

text \<open>What the loop stores and reports does not depend on what was printed before.\<close>

lemma loop_body_agree:
  assumes "current_hashes s = current_hashes s'"
    and "changes_detected s = changes_detected s'"
    and "now_calls s = now_calls s'"
  shows "current_hashes (loop_body md5 get now last_hashes s item) =
           current_hashes (loop_body md5 get now last_hashes s' item) \<and>
         changes_detected (loop_body md5 get now last_hashes s item) =
           changes_detected (loop_body md5 get now last_hashes s' item) \<and>
         now_calls (loop_body md5 get now last_hashes s item) =
           now_calls (loop_body md5 get now last_hashes s' item)"
  using assms by (cases item) (auto simp: loop_body_def Let_def split: fetched.splits)

lemma loop_agree:
  assumes "current_hashes s = current_hashes s'"
    and "changes_detected s = changes_detected s'"
    and "now_calls s = now_calls s'"
  shows "current_hashes (loop md5 get now last_hashes items s) =
           current_hashes (loop md5 get now last_hashes items s') \<and>
         changes_detected (loop md5 get now last_hashes items s) =
           changes_detected (loop md5 get now last_hashes items s')"
  using assms
proof (induction items arbitrary: s s')
  case Nil
  then show ?case by simp
next
  case (Cons item items)
  let ?t = "loop_body md5 get now last_hashes s item"
  let ?t' = "loop_body md5 get now last_hashes s' item"
  note step = loop_body_agree [OF Cons.prems, of md5 get now last_hashes item]
  have "current_hashes ?t = current_hashes ?t'" using step by (rule conjunct1)
  moreover have "changes_detected ?t = changes_detected ?t'"
    using step by (rule conjunct2 [THEN conjunct1])
  moreover have "now_calls ?t = now_calls ?t'"
    using step by (rule conjunct2 [THEN conjunct2])
  ultimately have
    "current_hashes (loop md5 get now last_hashes items ?t) =
       current_hashes (loop md5 get now last_hashes items ?t') \<and>
     changes_detected (loop md5 get now last_hashes items ?t) =
       changes_detected (loop md5 get now last_hashes items ?t')"
    by (rule Cons.IH)
  then show ?case by (simp only: loop.simps)
qed

subsection \<open>A run as a whole\<close>

lemma run_changes_intro:
  assumes "(nm, addr) \<in> set targets"
    and "\<And>ts. expected_change md5 (remote w) (snd (load (hash_storage_file w))) ts (nm, addr)
           = Some (c ts)"
  shows "\<exists>k. c (clock w k) \<in> set (fst (check_targets md5 targets w))"
  using loop_changes_intro [OF assms(1), of md5 "remote w" _ c "clock w" "start w"] assms(2)
  by (simp add: check_targets_unfold Let_def)

lemma run_changes_elim:
  assumes "c \<in> set (fst (check_targets md5 targets w))"
  shows "\<exists>item \<in> set targets. \<exists>k.
           expected_change md5 (remote w) (snd (load (hash_storage_file w))) (clock w k) item
             = Some c"
  using loop_changes_elim [of c md5 "remote w" "clock w" _ targets "start w"] assms
  by (simp add: check_targets_unfold Let_def start_def)

lemma run_saved_target:
  assumes "distinct (map fst targets)" and "(nm, addr) \<in> set targets"
  shows "snd (load (hash_storage_file (snd (check_targets md5 targets w)))) nm =
           (case remote w addr of
              Content body \<Rightarrow> Some (md5 body)
            | RequestException e \<Rightarrow> None)"
  using loop_hashes_target [OF assms, of md5 "remote w" "clock w" _ "start w"]
  by (simp add: check_targets_unfold Let_def load_Decoded start_def split: fetched.splits)

lemma run_saved_other:
  assumes "nm \<notin> fst ` set targets"
  shows "snd (load (hash_storage_file (snd (check_targets md5 targets w)))) nm = None"
  using loop_hashes_other [OF assms, of md5 "remote w" "clock w" _ "start w"]
  by (simp add: check_targets_unfold Let_def load_Decoded start_def)

lemma run_unchanged_printed:
  assumes "(nm, addr) \<in> set targets"
    and "unchanged md5 (remote w) (snd (load (hash_storage_file w))) (nm, addr)"
  shows "NoChange nm \<in> set (console (snd (check_targets md5 targets w)))"
  using loop_unchanged_printed [OF assms, of "clock w" "start w"]
  by (simp add: check_targets_unfold Let_def)

lemma run_names:
  "map name (fst (check_targets md5 targets w)) =
     map fst (filter (\<lambda>item. \<not> unchanged md5 (remote w) (snd (load (hash_storage_file w))) item)
       targets)"
  using loop_changes_names [of md5 "remote w" "clock w" _ targets "start w"]
  by (simp add: check_targets_unfold Let_def start_def)

lemma name_unique:
  assumes "distinct (map fst targets)" and "(nm, addr) \<in> set targets" and "item \<in> set targets"
    and "fst item = nm"
  shows "item = (nm, addr)"
  using assms by (metis eq_key_imp_eq_value prod.collapse)

lemma run_remote: "remote (snd (check_targets md5 targets w)) = remote w"
  by (simp add: check_targets_unfold Let_def)

lemma run_error_event:
  assumes "(nm, addr) \<in> set targets" and "remote w addr = RequestException e"
  shows "\<exists>k. \<lparr>name = nm, url = addr, timestamp = clock w k, status = ''Error: '' @ e,
               hash_change = ''N/A''\<rparr> \<in> set (fst (check_targets md5 targets w))"
proof -
  have "\<And>ts. expected_change md5 (remote w) (snd (load (hash_storage_file w))) ts (nm, addr) =
          Some \<lparr>name = nm, url = addr, timestamp = ts, status = ''Error: '' @ e,
                hash_change = ''N/A''\<rparr>"
    using assms(2) by (simp add: expected_change_def)
  from run_changes_intro [OF assms(1) this] show ?thesis .
qed

lemma run_event_of_failed:
  assumes "c \<in> set (fst (check_targets md5 targets w))"
    and "remote w (url c) = RequestException e"
  shows "status c = ''Error: '' @ e \<and> hash_change c = ''N/A''"
proof -
  from run_changes_elim [OF assms(1)] obtain item k
    where c_def: "expected_change md5 (remote w) (snd (load (hash_storage_file w))) (clock w k)
                    item = Some c"
    by blast
  obtain nm addr where item: "item = (nm, addr)" by (cases item)
  have "addr = url c" using expected_change_name [OF c_def] item by simp
  then have failed: "remote w addr = RequestException e" using assms(2) by simp
  have "Some c = Some \<lparr>name = nm, url = addr, timestamp = clock w k, status = ''Error: '' @ e,
                       hash_change = ''N/A''\<rparr>"
    using c_def item failed by (simp add: expected_change_def)
  then have c_eq: "c = \<lparr>name = nm, url = addr, timestamp = clock w k, status = ''Error: '' @ e,
                         hash_change = ''N/A''\<rparr>"
    by simp
  show ?thesis by (simp add: c_eq)
qed

lemma run_event_target:
  assumes "distinct (map fst targets)" and "(nm, addr) \<in> set targets"
    and "c \<in> set (fst (check_targets md5 targets w))" and "name c = nm"
  shows "url c = addr"
proof -
  from run_changes_elim [OF assms(3)] obtain item k
    where item_in: "item \<in> set targets"
      and c_def: "expected_change md5 (remote w) (snd (load (hash_storage_file w))) (clock w k)
                    item = Some c"
    by blast
  have names: "name c = fst item \<and> url c = snd item"
    using expected_change_name [OF c_def] .
  then have "item = (nm, addr)" using name_unique [OF assms(1,2) item_in] assms(4) by simp
  then show ?thesis using names by simp
qed

lemma run_no_history:
  "check_targets md5 targets (w\<lparr>hash_storage_file := Missing\<rparr>) =
     check_targets md5 targets (w\<lparr>hash_storage_file := Decoded Map.empty\<rparr>)"
  by (simp add: check_targets_def load_def)

lemma run_undecodable:
  "fst (check_targets md5 targets (w\<lparr>hash_storage_file := Undecodable\<rparr>)) =
     fst (check_targets md5 targets (w\<lparr>hash_storage_file := Decoded Map.empty\<rparr>)) \<and>
   hash_storage_file (snd (check_targets md5 targets (w\<lparr>hash_storage_file := Undecodable\<rparr>))) =
     hash_storage_file (snd (check_targets md5 targets (w\<lparr>hash_storage_file := Decoded Map.empty\<rparr>)))"
  using loop_agree [of
      "\<lparr>current_hashes = Map.empty, changes_detected = [],
        printed = console w @ [DecodeWarning], now_calls = reads w\<rparr>"
      "\<lparr>current_hashes = Map.empty, changes_detected = [],
        printed = console w, now_calls = reads w\<rparr>"
      md5 "remote w" "clock w" Map.empty targets]
  by (simp add: check_targets_def load_def Let_def)

subsection \<open>Runs in which every exception is caught\<close>




lemma try_check_targets_unhandled:
  "try_check_targets md5 targets (Unhandled x) server w = Inl x"
  by (simp add: try_check_targets_def load_hash_file_def)


subsection \<open>Facts about the small world\<close>

lemma toy_targets: "distinct (map fst MONITORED_URLS)"
  by (simp add: MONITORED_URLS_def)

lemma toy_google: "(''Google_Homepage'', ''https://www.google.com'') \<in> set MONITORED_URLS"
  by (simp add: MONITORED_URLS_def)

lemma toy_uwm: "(''UWM Press Releases'', ''https://www.uwm.com/press-releases'') \<in> set MONITORED_URLS"
  by (simp add: MONITORED_URLS_def)

lemma toy_remote_google: "remote (toy_world f) ''https://www.google.com'' = Content ''hello''"
  by (simp add: toy_world_def toy_remote_def)

lemma toy_remote_uwm:
  "remote (toy_world f) ''https://www.uwm.com/press-releases'' = RequestException ''timed out''"
  by (simp add: toy_world_def toy_remote_def)

lemma toy_file: "hash_storage_file (toy_world f) = f"
  by (simp add: toy_world_def)

lemma toy_stored:
  "snd (load (hash_storage_file (toy_world (Decoded [nm \<mapsto> d])))) nm = Some d"
  by (simp add: toy_file load_Decoded)

lemma toy_missing: "snd (load (hash_storage_file (toy_world Missing))) nm = None"
  by (simp add: toy_file load_def)







text \<open>The first run of the script in the small world, evaluated.\<close>

lemma example_first_run:
  "fst (check_for_changes toy_md5 (toy_world Missing)) =
     [\<lparr>name = ''Google_Homepage'', url = ''https://www.google.com'', timestamp = ''T0'',
       status = ''Initial Check (No history recorded)'',
       hash_change = ''Initial Hash: digest-o...''\<rparr>,
      \<lparr>name = ''UWM Press Releases'', url = ''https://www.uwm.com/press-releases'',
       timestamp = ''T1'', status = ''Error: timed out'', hash_change = ''N/A''\<rparr>]"
  by (simp add: check_for_changes_def check_targets_def MONITORED_URLS_def load_def toy_world_def
      toy_remote_def toy_md5_def loop_body_def Let_def str.simps digit_def)

subsection \<open>The report tree\<close>

lemma str_examples: "str 0 = ''0''" "str 7 = ''7''" "str 12 = ''12''" "str 305 = ''305''"
  by (simp_all add: str.simps digit_def)

lemma change_item_fields:
  "change_item c =
     Element ''ChangeItem'' None
       [Element ''Name'' (Some (name c)) [],
        Element ''URL'' (Some (url c)) [],
        Element ''Timestamp'' (Some (timestamp c)) [],
        Element ''Status'' (Some (status c)) [],
        Element ''HashDetails'' (Some (hash_change c)) []]"
  by (simp add: change_item_def SubElement_def Let_def)

lemma add_items_children:
  "add_items root cs = Element (tag root) (etext root) (children root @ map change_item cs)"
  by (induction cs arbitrary: root) (simp_all add: SubElement_def)

lemma main_report:
  "xml_output_file (main md5 w) =
     xml_output_file (generate_xml_report
       (fst (check_targets md5 MONITORED_URLS (w\<lparr>console := console w @ [Started]\<rparr>)))
       (snd (check_targets md5 MONITORED_URLS (w\<lparr>console := console w @ [Started]\<rparr>))))"
  by (simp add: main_def check_for_changes_def generate_xml_report_def Let_def split: prod.splits)

lemma digit_cases:
  assumes "d < 10"
  shows "d = 0 \<or> d = 1 \<or> d = 2 \<or> d = 3 \<or> d = 4 \<or> d = 5 \<or> d = 6 \<or> d = 7 \<or> d = 8 \<or> d = (9::nat)"
  using assms by arith

lemma digit_code: "d < 10 \<Longrightarrow> of_char (digit d) = 48 + d"
  using digit_cases [of d] by (auto simp: digit_def)

lemma digit_in_digits: "d < 10 \<Longrightarrow> digit d \<in> set ''0123456789''"
  using digit_cases [of d] by (auto simp: digit_def)

lemma digit_zero: "d < 10 \<Longrightarrow> digit d = CHR ''0'' \<longleftrightarrow> d = 0"
  using digit_cases [of d] by (auto simp: digit_def)

lemma decimal_value_snoc:
  "decimal_value (ds @ [c]) = 10 * decimal_value ds + (of_char c - 48)"
  by (simp add: decimal_value_def)

lemma str_value: "decimal_value (str n) = n"
proof (induction n rule: str.induct)
  case (1 n)
  show ?case
  proof (cases "n < 10")
    case True
    then show ?thesis
      by (subst str.simps) (simp add: decimal_value_def digit_code)
  next
    case False
    have "n mod 10 < 10" by simp
    then have "of_char (digit (n mod 10)) = 48 + n mod 10" by (rule digit_code)
    then show ?thesis
      using False "1.IH" by (subst str.simps) (simp add: decimal_value_snoc)
  qed
qed

lemma str_digits: "set (str n) \<subseteq> set ''0123456789''"
proof (induction n rule: str.induct)
  case (1 n)
  show ?case
  proof (cases "n < 10")
    case True
    then show ?thesis
      using digit_in_digits [of n] by (subst str.simps) simp
  next
    case False
    have "digit (n mod 10) \<in> set ''0123456789''" by (rule digit_in_digits) simp
    then show ?thesis
      using False "1.IH" by (subst str.simps) simp
  qed
qed

lemma str_nonempty: "str n \<noteq> []"
  by (subst str.simps) simp

lemma str_no_leading_zero: "0 < n \<Longrightarrow> hd (str n) \<noteq> CHR ''0''"
proof (induction n rule: str.induct)
  case (1 n)
  show ?case
  proof (cases "n < 10")
    case True
    then show ?thesis
      using "1.prems" digit_zero [of n] by (subst str.simps) simp
  next
    case False
    then have "0 < n div 10" by simp
    then have "hd (str (n div 10)) \<noteq> CHR ''0''" using False "1.IH" by simp
    then show ?thesis
      using False str_nonempty [of "n div 10"] by (subst str.simps) simp
  qed
qed

subsection \<open>State store\<close>

text \<open>
  C8 says that loading the state store never fails the run: a missing file gives the
  empty mapping, and a file that exists but cannot be parsed gives a warning and the
  empty mapping. The script does this for a missing file and for a file on which
  \<open>json.load\<close> raises \<open>JSONDecodeError\<close>. A file that is not UTF-8 cannot be parsed either,
  but the exception it raises is not the one line 25 names: the load returns no mapping
  and the run ends there, whatever the targets and the servers are.
\<close>

theorem load_raises_what_it_does_not_catch:
  "load_hash_file (Unhandled UnicodeDecodeError) = Inl UnicodeDecodeError \<and>
   try_check_targets md5 targets (Unhandled UnicodeDecodeError) server w
     = Inl UnicodeDecodeError \<and>
   load_hash_file (Handled Missing) = Inr ([], Map.empty) \<and>
   load_hash_file (Handled Undecodable) = Inr ([DecodeWarning], Map.empty)"
  by (simp add: load_hash_file_def load_def try_check_targets_unhandled)

subsection \<open>Failed fetches\<close>

text \<open>
  C1 as it is stated, that the entry of a target whose fetch fails is the same in the hash
  file after the run as before, does not hold: line 28 starts \<open>current_hashes\<close> empty,
  only line 39 adds to it, and line 79 writes it over the file. With a digest stored for
  the second configured site and its request timing out, the run leaves no entry for
  the site.
\<close>

theorem failed_fetch_keeps_prior_digest_counterexample:
  "remote (toy_world (Decoded [''UWM Press Releases'' \<mapsto> ''0123456789abcdef'']))
      ''https://www.uwm.com/press-releases'' = RequestException ''timed out'' \<and>
   snd (load (hash_storage_file
      (toy_world (Decoded [''UWM Press Releases'' \<mapsto> ''0123456789abcdef'']))))
      ''UWM Press Releases'' = Some ''0123456789abcdef'' \<and>
   snd (load (hash_storage_file (snd (check_for_changes toy_md5
      (toy_world (Decoded [''UWM Press Releases'' \<mapsto> ''0123456789abcdef'']))))))
      ''UWM Press Releases'' = None"
proof -
  have "snd (load (hash_storage_file (snd (check_targets toy_md5 MONITORED_URLS
      (toy_world (Decoded [''UWM Press Releases'' \<mapsto> ''0123456789abcdef'']))))))
      ''UWM Press Releases'' = None"
    by (simp add: run_saved_target [OF toy_targets toy_uwm] toy_remote_uwm)
  then show ?thesis
    by (simp add: check_for_changes_def toy_remote_uwm toy_file load_Decoded)
qed

text \<open>
  C1, amended. For every target whose fetch fails during a run, the hash file written by
  the run has no entry for the target: no digest is written for it and a digest stored
  before the run is not carried over. An Error event with the target's name, its URL
  and the message of the exception is in the list the run returns.
\<close>

theorem failed_fetch_drops_entry:
  assumes "distinct (map fst targets)"
    and "(nm, addr) \<in> set targets"
    and "remote w addr = RequestException e"
  shows "snd (load (hash_storage_file (snd (check_targets md5 targets w)))) nm = None \<and>
         (\<exists>k. \<lparr>name = nm, url = addr, timestamp = clock w k, status = ''Error: '' @ e,
                hash_change = ''N/A''\<rparr> \<in> set (fst (check_targets md5 targets w)))"
proof
  show "snd (load (hash_storage_file (snd (check_targets md5 targets w)))) nm = None"
    using run_saved_target [OF assms(1,2)] assms(3) by simp
next
  have "\<And>ts. expected_change md5 (remote w) (snd (load (hash_storage_file w))) ts (nm, addr) =
          Some \<lparr>name = nm, url = addr, timestamp = ts, status = ''Error: '' @ e,
                hash_change = ''N/A''\<rparr>"
    using assms(3) by (simp add: expected_change_def)
  from run_changes_intro [OF assms(2) this]
  show "\<exists>k. \<lparr>name = nm, url = addr, timestamp = clock w k, status = ''Error: '' @ e,
               hash_change = ''N/A''\<rparr> \<in> set (fst (check_targets md5 targets w))" .
qed

theorem failed_fetch_drops_entry_witness:
  "distinct (map fst MONITORED_URLS) \<and>
   (''UWM Press Releases'', ''https://www.uwm.com/press-releases'') \<in> set MONITORED_URLS \<and>
   remote (toy_world Missing) ''https://www.uwm.com/press-releases''
     = RequestException ''timed out'' \<and>
   snd (load (hash_storage_file (snd (check_targets toy_md5 MONITORED_URLS (toy_world Missing)))))
     ''UWM Press Releases'' = None \<and>
   (\<exists>k. \<lparr>name = ''UWM Press Releases'', url = ''https://www.uwm.com/press-releases'',
          timestamp = clock (toy_world Missing) k, status = ''Error: '' @ ''timed out'',
          hash_change = ''N/A''\<rparr>
        \<in> set (fst (check_targets toy_md5 MONITORED_URLS (toy_world Missing))))"
  using failed_fetch_drops_entry [OF toy_targets toy_uwm toy_remote_uwm [of Missing], of toy_md5]
    toy_targets toy_uwm toy_remote_uwm [of Missing]
  by blast

subsection \<open>The state store across runs\<close>

text \<open>
  C2. Round trip of the state store: what a run saves, loaded at the start of the next
  run, is exactly the mapping from each target fetched successfully in the run to the
  digest computed for it. The load gives no warning, and a name \<open>nm\<close> is mapped to \<open>d\<close>
  exactly when a configured target of that name was fetched and \<open>d\<close> is the digest of the
  body. The names of the configuration are distinct, as the keys of a dictionary are.
\<close>

theorem saved_state_round_trip:
  assumes "distinct (map fst targets)"
  shows "fst (load (hash_storage_file (snd (check_targets md5 targets w)))) = [] \<and>
         (snd (load (hash_storage_file (snd (check_targets md5 targets w)))) nm = Some d
            \<longleftrightarrow> (\<exists>addr body. (nm, addr) \<in> set targets \<and> remote w addr = Content body \<and>
                   d = md5 body))"
proof
  show "fst (load (hash_storage_file (snd (check_targets md5 targets w)))) = []"
    by (simp add: check_targets_unfold Let_def load_Decoded)
next
  let ?saved = "snd (load (hash_storage_file (snd (check_targets md5 targets w))))"
  show "?saved nm = Some d
          \<longleftrightarrow> (\<exists>addr body. (nm, addr) \<in> set targets \<and> remote w addr = Content body \<and>
                 d = md5 body)"
  proof
    assume saved: "?saved nm = Some d"
    have "nm \<in> fst ` set targets"
    proof (rule ccontr)
      assume "nm \<notin> fst ` set targets"
      from run_saved_other [OF this, of md5 w] saved show False by simp
    qed
    then obtain addr where in_targets: "(nm, addr) \<in> set targets" by auto
    from run_saved_target [OF assms in_targets, of md5 w] saved
    obtain body where "remote w addr = Content body" and "d = md5 body"
      by (cases "remote w addr") simp_all
    with in_targets
    show "\<exists>addr body. (nm, addr) \<in> set targets \<and> remote w addr = Content body \<and> d = md5 body"
      by blast
  next
    assume "\<exists>addr body. (nm, addr) \<in> set targets \<and> remote w addr = Content body \<and> d = md5 body"
    then obtain addr body where in_targets: "(nm, addr) \<in> set targets"
        and fetched: "remote w addr = Content body" and d: "d = md5 body"
      by blast
    from run_saved_target [OF assms in_targets, of md5 w] fetched d
    show "?saved nm = Some d" by simp
  qed
qed


theorem saved_state_round_trip_witness:
  "distinct (map fst MONITORED_URLS) \<and>
   fst (load (hash_storage_file (snd (check_targets toy_md5 MONITORED_URLS (toy_world Missing)))))
     = [] \<and>
   snd (load (hash_storage_file (snd (check_targets toy_md5 MONITORED_URLS (toy_world Missing)))))
     ''Google_Homepage'' = Some ''digest-of-hello''"
proof -
  have digest: "''digest-of-hello'' = toy_md5 ''hello''"
    by (simp add: toy_md5_def)
  have ex: "\<exists>addr body. (''Google_Homepage'', addr) \<in> set MONITORED_URLS \<and>
          remote (toy_world Missing) addr = Content body \<and> ''digest-of-hello'' = toy_md5 body"
    using toy_google toy_remote_google [of Missing] digest by blast
  note rt = saved_state_round_trip [where ?md5.0 = toy_md5 and w = "toy_world Missing"
      and nm = "''Google_Homepage''" and d = "''digest-of-hello''", OF toy_targets]
  from rt ex toy_targets show ?thesis by blast
qed

subsection \<open>Successful fetches\<close>

text \<open>
  C3. For every target whose fetch succeeds and whose digest differs from the digest
  stored under its name by the previous run, the run reports a change with status
  \<open>Content Changed\<close> whose details hold the first eight characters of the old and of the
  new digest, every record of the report under that name has this status, and the
  digest stored under the name after the run is the new one.
\<close>

theorem changed_digest_reported_and_stored:
  assumes "distinct (map fst targets)"
    and "(nm, addr) \<in> set targets"
    and "remote w addr = Content body"
    and "snd (load (hash_storage_file w)) nm = Some old"
    and "old \<noteq> md5 body"
  shows "(\<exists>k. \<lparr>name = nm, url = addr, timestamp = clock w k, status = ''Content Changed'',
                hash_change = ''Old: '' @ take 8 old @ ''... -> New: '' @ take 8 (md5 body) @
                  ''...''\<rparr> \<in> set (fst (check_targets md5 targets w))) \<and>
         (\<forall>c \<in> set (fst (check_targets md5 targets w)).
            name c = nm \<longrightarrow> status c = ''Content Changed'') \<and>
         snd (load (hash_storage_file (snd (check_targets md5 targets w)))) nm = Some (md5 body)"
proof (intro conjI ballI impI)
  have "\<And>ts. expected_change md5 (remote w) (snd (load (hash_storage_file w))) ts (nm, addr) =
          Some \<lparr>name = nm, url = addr, timestamp = ts, status = ''Content Changed'',
                hash_change = ''Old: '' @ take 8 old @ ''... -> New: '' @ take 8 (md5 body) @
                  ''...''\<rparr>"
    using assms(3,4,5) by (simp add: expected_change_def)
  from run_changes_intro [OF assms(2) this]
  show "\<exists>k. \<lparr>name = nm, url = addr, timestamp = clock w k, status = ''Content Changed'',
               hash_change = ''Old: '' @ take 8 old @ ''... -> New: '' @ take 8 (md5 body) @
                 ''...''\<rparr> \<in> set (fst (check_targets md5 targets w))" .
next
  fix c
  assume c_in: "c \<in> set (fst (check_targets md5 targets w))" and c_name: "name c = nm"
  from run_changes_elim [OF c_in] obtain item k
    where item_in: "item \<in> set targets"
      and c_def: "expected_change md5 (remote w) (snd (load (hash_storage_file w))) (clock w k)
                    item = Some c"
    by blast
  have "fst item = nm" using expected_change_name [OF c_def] c_name by simp
  then have "item = (nm, addr)" using name_unique [OF assms(1,2) item_in] by simp
  then show "status c = ''Content Changed''"
    using c_def assms(3,4,5) by (auto simp: expected_change_def)
next
  show "snd (load (hash_storage_file (snd (check_targets md5 targets w)))) nm = Some (md5 body)"
    using run_saved_target [OF assms(1,2), of md5 w] assms(3) by simp
qed

theorem changed_digest_reported_and_stored_witness:
  "distinct (map fst MONITORED_URLS) \<and>
   (''Google_Homepage'', ''https://www.google.com'') \<in> set MONITORED_URLS \<and>
   remote (toy_world (Decoded [''Google_Homepage'' \<mapsto> ''digest-of-goodbye'']))
     ''https://www.google.com'' = Content ''hello'' \<and>
   snd (load (hash_storage_file (toy_world (Decoded [''Google_Homepage'' \<mapsto> ''digest-of-goodbye'']))))
     ''Google_Homepage'' = Some ''digest-of-goodbye'' \<and>
   ''digest-of-goodbye'' \<noteq> toy_md5 ''hello'' \<and>
   (\<exists>k. \<lparr>name = ''Google_Homepage'', url = ''https://www.google.com'',
          timestamp = clock (toy_world (Decoded [''Google_Homepage'' \<mapsto> ''digest-of-goodbye''])) k,
          status = ''Content Changed'',
          hash_change = ''Old: digest-o... -> New: digest-o...''\<rparr>
        \<in> set (fst (check_targets toy_md5 MONITORED_URLS
              (toy_world (Decoded [''Google_Homepage'' \<mapsto> ''digest-of-goodbye'']))))) \<and>
   snd (load (hash_storage_file (snd (check_targets toy_md5 MONITORED_URLS
          (toy_world (Decoded [''Google_Homepage'' \<mapsto> ''digest-of-goodbye'']))))))
     ''Google_Homepage'' = Some ''digest-of-hello''"
proof -
  have differ: "''digest-of-goodbye'' \<noteq> toy_md5 ''hello''"
    by (simp add: toy_md5_def)
  show ?thesis
    using changed_digest_reported_and_stored [where ?md5.0 = toy_md5, OF toy_targets toy_google
        toy_remote_google toy_stored differ]
      toy_targets toy_google toy_remote_google toy_stored differ
    by (simp add: toy_md5_def)
qed

text \<open>
  C4. For every target whose fetch succeeds and whose digest equals the digest stored
  under its name by the previous run, the report has no record under that name (the
  run only prints the line of line 61), and the digest stored under the name after the
  run is the one stored before.
\<close>

theorem equal_digest_not_reported:
  assumes "distinct (map fst targets)"
    and "(nm, addr) \<in> set targets"
    and "remote w addr = Content body"
    and "snd (load (hash_storage_file w)) nm = Some (md5 body)"
  shows "nm \<notin> name ` set (fst (check_targets md5 targets w)) \<and>
         NoChange nm \<in> set (console (snd (check_targets md5 targets w))) \<and>
         snd (load (hash_storage_file (snd (check_targets md5 targets w)))) nm
           = snd (load (hash_storage_file w)) nm"
proof (intro conjI)
  have same: "unchanged md5 (remote w) (snd (load (hash_storage_file w))) (nm, addr)"
    using assms(3,4) by (simp add: unchanged_def)
  show "nm \<notin> name ` set (fst (check_targets md5 targets w))"
  proof
    assume "nm \<in> name ` set (fst (check_targets md5 targets w))"
    then have "nm \<in> set (map name (fst (check_targets md5 targets w)))" by simp
    then obtain item where item_in: "item \<in> set targets"
        and differs: "\<not> unchanged md5 (remote w) (snd (load (hash_storage_file w))) item"
        and "fst item = nm"
      unfolding run_names by auto
    then have "item = (nm, addr)" using name_unique [OF assms(1,2)] by simp
    then show False using same differs by simp
  qed
  show "NoChange nm \<in> set (console (snd (check_targets md5 targets w)))"
    using run_unchanged_printed [OF assms(2) same] .
  show "snd (load (hash_storage_file (snd (check_targets md5 targets w)))) nm
          = snd (load (hash_storage_file w)) nm"
    using run_saved_target [OF assms(1,2), of md5 w] assms(3,4) by simp
qed

theorem equal_digest_not_reported_witness:
  "distinct (map fst MONITORED_URLS) \<and>
   (''Google_Homepage'', ''https://www.google.com'') \<in> set MONITORED_URLS \<and>
   remote (toy_world (Decoded [''Google_Homepage'' \<mapsto> ''digest-of-hello'']))
     ''https://www.google.com'' = Content ''hello'' \<and>
   snd (load (hash_storage_file (toy_world (Decoded [''Google_Homepage'' \<mapsto> ''digest-of-hello'']))))
     ''Google_Homepage'' = Some (toy_md5 ''hello'') \<and>
   ''Google_Homepage'' \<notin> name ` set (fst (check_targets toy_md5 MONITORED_URLS
       (toy_world (Decoded [''Google_Homepage'' \<mapsto> ''digest-of-hello''])))) \<and>
   NoChange ''Google_Homepage'' \<in> set (console (snd (check_targets toy_md5 MONITORED_URLS
       (toy_world (Decoded [''Google_Homepage'' \<mapsto> ''digest-of-hello'']))))) \<and>
   snd (load (hash_storage_file (snd (check_targets toy_md5 MONITORED_URLS
          (toy_world (Decoded [''Google_Homepage'' \<mapsto> ''digest-of-hello'']))))))
     ''Google_Homepage'' = Some ''digest-of-hello''"
proof -
  have stored: "snd (load (hash_storage_file
      (toy_world (Decoded [''Google_Homepage'' \<mapsto> ''digest-of-hello'']))))
      ''Google_Homepage'' = Some (toy_md5 ''hello'')"
    by (simp add: toy_file load_Decoded toy_md5_def)
  show ?thesis
    using equal_digest_not_reported [where ?md5.0 = toy_md5, OF toy_targets toy_google
        toy_remote_google stored]
      toy_targets toy_google toy_remote_google stored
    by (simp add: toy_md5_def)
qed

text \<open>
  C5. For every target with no digest recorded under its name, a successful fetch yields
  a record with status \<open>Initial Check (No history recorded)\<close> whose details hold the
  first eight characters of the new digest. This happens once: a following run, started
  on the hash file the first run wrote and fetching the same body, puts no record under
  the name into its report and prints the line of an unchanged target.
\<close>

theorem initial_exactly_once:
  assumes "distinct (map fst targets)"
    and "(nm, addr) \<in> set targets"
    and "snd (load (hash_storage_file w)) nm = None"
    and "remote w addr = Content body"
    and "hash_storage_file w2 = hash_storage_file (snd (check_targets md5 targets w))"
    and "remote w2 addr = Content body"
  shows "(\<exists>k. \<lparr>name = nm, url = addr, timestamp = clock w k,
                status = ''Initial Check (No history recorded)'',
                hash_change = ''Initial Hash: '' @ take 8 (md5 body) @ ''...''\<rparr>
              \<in> set (fst (check_targets md5 targets w))) \<and>
         nm \<notin> name ` set (fst (check_targets md5 targets w2)) \<and>
         NoChange nm \<in> set (console (snd (check_targets md5 targets w2)))"
proof (intro conjI)
  have "\<And>ts. expected_change md5 (remote w) (snd (load (hash_storage_file w))) ts (nm, addr) =
          Some \<lparr>name = nm, url = addr, timestamp = ts,
                status = ''Initial Check (No history recorded)'',
                hash_change = ''Initial Hash: '' @ take 8 (md5 body) @ ''...''\<rparr>"
    using assms(3,4) by (simp add: expected_change_def)
  from run_changes_intro [OF assms(2) this]
  show "\<exists>k. \<lparr>name = nm, url = addr, timestamp = clock w k,
               status = ''Initial Check (No history recorded)'',
               hash_change = ''Initial Hash: '' @ take 8 (md5 body) @ ''...''\<rparr>
             \<in> set (fst (check_targets md5 targets w))" .
next
  have stored: "snd (load (hash_storage_file w2)) nm = Some (md5 body)"
    using run_saved_target [OF assms(1,2), of md5 w] assms(4,5) by simp
  have same: "unchanged md5 (remote w2) (snd (load (hash_storage_file w2))) (nm, addr)"
    using stored assms(6) by (simp add: unchanged_def)
  show "nm \<notin> name ` set (fst (check_targets md5 targets w2))"
  proof
    assume "nm \<in> name ` set (fst (check_targets md5 targets w2))"
    then have "nm \<in> set (map name (fst (check_targets md5 targets w2)))" by simp
    then obtain item where item_in: "item \<in> set targets"
        and differs: "\<not> unchanged md5 (remote w2) (snd (load (hash_storage_file w2))) item"
        and "fst item = nm"
      unfolding run_names by auto
    then have "item = (nm, addr)" using name_unique [OF assms(1,2)] by simp
    then show False using same differs by simp
  qed
  show "NoChange nm \<in> set (console (snd (check_targets md5 targets w2)))"
    using run_unchanged_printed [OF assms(2) same] .
qed

theorem initial_exactly_once_witness:
  "distinct (map fst MONITORED_URLS) \<and>
   (''Google_Homepage'', ''https://www.google.com'') \<in> set MONITORED_URLS \<and>
   snd (load (hash_storage_file (toy_world Missing))) ''Google_Homepage'' = None \<and>
   remote (toy_world Missing) ''https://www.google.com'' = Content ''hello'' \<and>
   remote (snd (check_targets toy_md5 MONITORED_URLS (toy_world Missing)))
     ''https://www.google.com'' = Content ''hello'' \<and>
   (\<exists>k. \<lparr>name = ''Google_Homepage'', url = ''https://www.google.com'',
          timestamp = clock (toy_world Missing) k,
          status = ''Initial Check (No history recorded)'',
          hash_change = ''Initial Hash: digest-o...''\<rparr>
        \<in> set (fst (check_targets toy_md5 MONITORED_URLS (toy_world Missing)))) \<and>
   ''Google_Homepage'' \<notin> name ` set (fst (check_targets toy_md5 MONITORED_URLS
       (snd (check_targets toy_md5 MONITORED_URLS (toy_world Missing))))) \<and>
   NoChange ''Google_Homepage'' \<in> set (console (snd (check_targets toy_md5 MONITORED_URLS
       (snd (check_targets toy_md5 MONITORED_URLS (toy_world Missing))))))"
proof -
  have again: "remote (snd (check_targets toy_md5 MONITORED_URLS (toy_world Missing)))
      ''https://www.google.com'' = Content ''hello''"
    by (simp add: run_remote toy_remote_google)
  have short: "''Initial Hash: '' @ take 8 (toy_md5 ''hello'') @ ''...''
      = ''Initial Hash: digest-o...''"
    by (simp add: toy_md5_def)
  note once = initial_exactly_once [where ?md5.0 = toy_md5 and w = "toy_world Missing"
      and ?w2.0 = "snd (check_targets toy_md5 MONITORED_URLS (toy_world Missing))",
      OF toy_targets toy_google toy_missing toy_remote_google refl again]
  from once toy_targets toy_google toy_missing [of "''Google_Homepage''"]
    toy_remote_google [of Missing] again
  show ?thesis unfolding short by blast
qed

subsection \<open>Failures do not stop a run\<close>




text \<open>
  C10. For every target whose fetch fails, the record of the target has the status
  \<open>Error: \<close> followed by the message of the exception and the details \<open>N/A\<close>, and so has
  every record of the report whose URL failed to be fetched: no part of a digest is in an
  Error record.
\<close>

theorem error_event_fields:
  assumes "distinct (map fst targets)"
    and "(nm, addr) \<in> set targets"
    and "remote w addr = RequestException e"
  shows "(\<exists>k. \<lparr>name = nm, url = addr, timestamp = clock w k, status = ''Error: '' @ e,
                hash_change = ''N/A''\<rparr> \<in> set (fst (check_targets md5 targets w))) \<and>
         (\<forall>c \<in> set (fst (check_targets md5 targets w)).
            name c = nm \<longrightarrow> status c = ''Error: '' @ e \<and> hash_change c = ''N/A'') \<and>
         (\<forall>c \<in> set (fst (check_targets md5 targets w)). \<forall>e'.
            remote w (url c) = RequestException e' \<longrightarrow>
              status c = ''Error: '' @ e' \<and> hash_change c = ''N/A'')"
proof (intro conjI ballI impI allI)
  show "\<exists>k. \<lparr>name = nm, url = addr, timestamp = clock w k, status = ''Error: '' @ e,
               hash_change = ''N/A''\<rparr> \<in> set (fst (check_targets md5 targets w))"
    using run_error_event [OF assms(2,3)] .
next
  fix c
  assume c_in: "c \<in> set (fst (check_targets md5 targets w))" and c_name: "name c = nm"
  have "url c = addr" using run_event_target [OF assms(1,2) c_in c_name] .
  then have failed: "remote w (url c) = RequestException e" using assms(3) by simp
  show "status c = ''Error: '' @ e" using run_event_of_failed [OF c_in failed] by simp
  show "hash_change c = ''N/A''" using run_event_of_failed [OF c_in failed] by simp
next
  fix c e'
  assume c_in: "c \<in> set (fst (check_targets md5 targets w))"
    and failed: "remote w (url c) = RequestException e'"
  show "status c = ''Error: '' @ e'" using run_event_of_failed [OF c_in failed] by simp
  show "hash_change c = ''N/A''" using run_event_of_failed [OF c_in failed] by simp
qed

theorem error_event_fields_witness:
  "distinct (map fst MONITORED_URLS) \<and>
   (''UWM Press Releases'', ''https://www.uwm.com/press-releases'') \<in> set MONITORED_URLS \<and>
   remote (toy_world Missing) ''https://www.uwm.com/press-releases''
     = RequestException ''timed out'' \<and>
   (\<exists>k. \<lparr>name = ''UWM Press Releases'', url = ''https://www.uwm.com/press-releases'',
          timestamp = clock (toy_world Missing) k, status = ''Error: timed out'',
          hash_change = ''N/A''\<rparr>
        \<in> set (fst (check_targets toy_md5 MONITORED_URLS (toy_world Missing))))"
proof -
  note fields = error_event_fields [where ?md5.0 = toy_md5, OF toy_targets toy_uwm
      toy_remote_uwm [of Missing]]
  have msg: "''Error: '' @ ''timed out'' = ''Error: timed out''" by simp
  from fields toy_targets toy_uwm toy_remote_uwm [of Missing]
  show ?thesis unfolding msg by blast
qed

subsection \<open>Running twice\<close>

text \<open>
  C7. Idempotence of a run. Let a second run start on the hash file the first run wrote,
  and let every body be unchanged between the runs: whatever body the second run
  fetches for a target, the first run fetched the same body for it. Then the second
  run reports neither a \<open>Content Changed\<close> nor an \<open>Initial Check\<close> record: every record of
  its report is the Error record of a target whose fetch failed in the second run, and
  every target it fetched is unchanged, with no record under its name.
\<close>

theorem second_run_reports_no_change:
  assumes "distinct (map fst targets)"
    and "hash_storage_file w2 = hash_storage_file (snd (check_targets md5 targets w))"
    and "\<forall>(nm, addr) \<in> set targets. \<forall>body.
           remote w2 addr = Content body \<longrightarrow> remote w addr = Content body"
  shows "(\<forall>c \<in> set (fst (check_targets md5 targets w2)).
            status c \<noteq> ''Content Changed'' \<and>
            status c \<noteq> ''Initial Check (No history recorded)'' \<and>
            (\<exists>e. remote w2 (url c) = RequestException e \<and> status c = ''Error: '' @ e)) \<and>
         (\<forall>(nm, addr) \<in> set targets. \<forall>body.
            remote w2 addr = Content body \<longrightarrow>
              nm \<notin> name ` set (fst (check_targets md5 targets w2)) \<and>
              NoChange nm \<in> set (console (snd (check_targets md5 targets w2))))"
proof -
  have same: "unchanged md5 (remote w2) (snd (load (hash_storage_file w2))) (nm, addr)"
    if in_targets: "(nm, addr) \<in> set targets" and fetched: "remote w2 addr = Content body"
    for nm addr body
  proof -
    have "remote w addr = Content body" using assms(3) in_targets fetched by blast
    then have "snd (load (hash_storage_file w2)) nm = Some (md5 body)"
      using run_saved_target [OF assms(1) in_targets, of md5 w] assms(2) by simp
    then show ?thesis using fetched by (simp add: unchanged_def)
  qed
  have failing: "\<exists>e. remote w2 (url c) = RequestException e \<and> status c = ''Error: '' @ e"
    if c_in: "c \<in> set (fst (check_targets md5 targets w2))" for c
  proof -
    from run_changes_elim [OF c_in] obtain item k
      where item_in: "item \<in> set targets"
        and c_def: "expected_change md5 (remote w2) (snd (load (hash_storage_file w2)))
                      (clock w2 k) item = Some c"
      by blast
    obtain nm addr where item: "item = (nm, addr)" by (cases item)
    have addr: "url c = addr" using expected_change_name [OF c_def] item by simp
    have "\<not> unchanged md5 (remote w2) (snd (load (hash_storage_file w2))) item"
      using c_def expected_change_None by (metis option.distinct(1))
    then have "\<And>body. remote w2 addr \<noteq> Content body"
      using same item item_in by blast
    then obtain e where failed: "remote w2 addr = RequestException e"
      by (cases "remote w2 addr") auto
    then have "remote w2 (url c) = RequestException e" using addr by simp
    from run_event_of_failed [OF c_in this] this show ?thesis by blast
  qed
  have part1: "status c \<noteq> ''Content Changed'' \<and>
      status c \<noteq> ''Initial Check (No history recorded)'' \<and>
      (\<exists>e. remote w2 (url c) = RequestException e \<and> status c = ''Error: '' @ e)"
    if c_in: "c \<in> set (fst (check_targets md5 targets w2))" for c
  proof -
    from failing [OF c_in] obtain e
      where failed: "remote w2 (url c) = RequestException e" and st: "status c = ''Error: '' @ e"
      by blast
    have "status c \<noteq> ''Content Changed''" by (simp add: st)
    moreover have "status c \<noteq> ''Initial Check (No history recorded)''" by (simp add: st)
    ultimately show ?thesis using failed st by blast
  qed
  have part2: "nm \<notin> name ` set (fst (check_targets md5 targets w2)) \<and>
      NoChange nm \<in> set (console (snd (check_targets md5 targets w2)))"
    if in_targets: "(nm, addr) \<in> set targets" and fetched: "remote w2 addr = Content body"
    for nm addr body
  proof
    show "nm \<notin> name ` set (fst (check_targets md5 targets w2))"
    proof
      assume "nm \<in> name ` set (fst (check_targets md5 targets w2))"
      then obtain c where c_in: "c \<in> set (fst (check_targets md5 targets w2))"
          and c_name: "name c = nm"
        by auto
      have "url c = addr" using run_event_target [OF assms(1) in_targets c_in c_name] .
      with failing [OF c_in] fetched show False by auto
    qed
    show "NoChange nm \<in> set (console (snd (check_targets md5 targets w2)))"
      using run_unchanged_printed [OF in_targets same [OF in_targets fetched]] .
  qed
  show ?thesis
    using part1 part2 by blast
qed

theorem second_run_reports_no_change_witness:
  "distinct (map fst MONITORED_URLS) \<and>
   remote (snd (check_targets toy_md5 MONITORED_URLS (toy_world Missing)))
     ''https://www.google.com'' = Content ''hello'' \<and>
   ''Google_Homepage'' \<notin> name ` set (fst (check_targets toy_md5 MONITORED_URLS
       (snd (check_targets toy_md5 MONITORED_URLS (toy_world Missing))))) \<and>
   NoChange ''Google_Homepage'' \<in> set (console (snd (check_targets toy_md5 MONITORED_URLS
       (snd (check_targets toy_md5 MONITORED_URLS (toy_world Missing))))))"
proof -
  let ?w2 = "snd (check_targets toy_md5 MONITORED_URLS (toy_world Missing))"
  have again: "remote ?w2 ''https://www.google.com'' = Content ''hello''"
    by (simp add: run_remote toy_remote_google)
  have bodies: "\<forall>(nm, addr) \<in> set MONITORED_URLS. \<forall>body.
      remote ?w2 addr = Content body \<longrightarrow> remote (toy_world Missing) addr = Content body"
    by (simp add: run_remote)
  note twice = second_run_reports_no_change [where ?md5.0 = toy_md5 and w = "toy_world Missing"
      and ?w2.0 = ?w2, OF toy_targets refl bodies]
  then have "\<forall>(nm, addr) \<in> set MONITORED_URLS. \<forall>body.
      remote ?w2 addr = Content body \<longrightarrow>
        nm \<notin> name ` set (fst (check_targets toy_md5 MONITORED_URLS ?w2)) \<and>
        NoChange nm \<in> set (console (snd (check_targets toy_md5 MONITORED_URLS ?w2)))"
    by (elim conjE)
  from bspec [OF this toy_google] again
  have "''Google_Homepage'' \<notin> name ` set (fst (check_targets toy_md5 MONITORED_URLS ?w2)) \<and>
        NoChange ''Google_Homepage'' \<in> set (console (snd (check_targets toy_md5 MONITORED_URLS ?w2)))"
    by simp
  with toy_targets again show ?thesis by blast
qed

subsection \<open>The report\<close>

text \<open>
  C9. The report is a \<open>MonitoringReport\<close> element whose first child is a \<open>Status\<close> element.
  When the list of records is not empty its text is the number of records, written in
  decimal digits without a leading zero, followed by
  \<open> Change(s) or Initial Check(s) Detected.\<close>; when the list is empty the text says that
  no changes were detected. The second child is \<open>TimestampGenerated\<close> with the time read
  when the report is built. Then comes one \<open>ChangeItem\<close> for each record, in the order of
  the list, with the children \<open>Name\<close>, \<open>URL\<close>, \<open>Timestamp\<close>, \<open>Status\<close> and \<open>HashDetails\<close> in
  this order. The script builds the report from the list that \<open>check_for_changes\<close>
  returns, and the names in that list are the names of the configuration, in its order,
  without the unchanged targets.
\<close>

theorem report_shape:
  "(\<exists>status_text.
      xml_output_file (generate_xml_report changes w) =
        Some (Element ''MonitoringReport'' None
          ([Element ''Status'' (Some status_text) [],
            Element ''TimestampGenerated'' (Some (clock w (reads w))) []] @
           map (\<lambda>c. Element ''ChangeItem'' None
                      [Element ''Name'' (Some (name c)) [],
                       Element ''URL'' (Some (url c)) [],
                       Element ''Timestamp'' (Some (timestamp c)) [],
                       Element ''Status'' (Some (status c)) [],
                       Element ''HashDetails'' (Some (hash_change c)) []]) changes)) \<and>
      (if changes \<noteq> []
       then \<exists>ds. status_text = ds @ '' Change(s) or Initial Check(s) Detected.'' \<and>
              ds \<noteq> [] \<and> set ds \<subseteq> set ''0123456789'' \<and> hd ds \<noteq> CHR ''0'' \<and>
              decimal_value ds = length changes
       else status_text = ''No changes detected since the last run.'')) \<and>
   xml_output_file (main md5 w0) =
     xml_output_file (generate_xml_report
       (fst (check_targets md5 MONITORED_URLS (w0\<lparr>console := console w0 @ [Started]\<rparr>)))
       (snd (check_targets md5 MONITORED_URLS (w0\<lparr>console := console w0 @ [Started]\<rparr>)))) \<and>
   map name (fst (check_targets md5 targets w1)) =
     map fst (filter (\<lambda>item. \<not> unchanged md5 (remote w1) (snd (load (hash_storage_file w1))) item)
       targets)"
proof (intro conjI)
  let ?text = "if changes \<noteq> []
     then str (length changes) @ '' Change(s) or Initial Check(s) Detected.''
     else ''No changes detected since the last run.''"
  have tree: "xml_output_file (generate_xml_report changes w) =
        Some (Element ''MonitoringReport'' None
          ([Element ''Status'' (Some ?text) [],
            Element ''TimestampGenerated'' (Some (clock w (reads w))) []] @
           map (\<lambda>c. Element ''ChangeItem'' None
                      [Element ''Name'' (Some (name c)) [],
                       Element ''URL'' (Some (url c)) [],
                       Element ''Timestamp'' (Some (timestamp c)) [],
                       Element ''Status'' (Some (status c)) [],
                       Element ''HashDetails'' (Some (hash_change c)) []]) changes))"
    by (simp add: generate_xml_report_def Let_def add_items_children SubElement_def
        change_item_fields)
  have count: "if changes \<noteq> []
       then \<exists>ds. ?text = ds @ '' Change(s) or Initial Check(s) Detected.'' \<and>
              ds \<noteq> [] \<and> set ds \<subseteq> set ''0123456789'' \<and> hd ds \<noteq> CHR ''0'' \<and>
              decimal_value ds = length changes
       else ?text = ''No changes detected since the last run.''"
  proof (cases "changes = []")
    case True
    then show ?thesis by simp
  next
    case False
    then have "0 < length changes" by simp
    then have "hd (str (length changes)) \<noteq> CHR ''0''" by (rule str_no_leading_zero)
    then have "str (length changes) @ '' Change(s) or Initial Check(s) Detected.'' =
        str (length changes) @ '' Change(s) or Initial Check(s) Detected.'' \<and>
        str (length changes) \<noteq> [] \<and> set (str (length changes)) \<subseteq> set ''0123456789'' \<and>
        hd (str (length changes)) \<noteq> CHR ''0'' \<and>
        decimal_value (str (length changes)) = length changes"
      using str_nonempty str_digits str_value by blast
    then have "\<exists>ds. str (length changes) @ '' Change(s) or Initial Check(s) Detected.'' =
        ds @ '' Change(s) or Initial Check(s) Detected.'' \<and>
        ds \<noteq> [] \<and> set ds \<subseteq> set ''0123456789'' \<and> hd ds \<noteq> CHR ''0'' \<and>
        decimal_value ds = length changes"
      by (rule exI)
    then show ?thesis using False by (simp only: if_True if_False not_False_eq_True)
  qed
  from tree count
  show "\<exists>status_text.
      xml_output_file (generate_xml_report changes w) =
        Some (Element ''MonitoringReport'' None
          ([Element ''Status'' (Some status_text) [],
            Element ''TimestampGenerated'' (Some (clock w (reads w))) []] @
           map (\<lambda>c. Element ''ChangeItem'' None
                      [Element ''Name'' (Some (name c)) [],
                       Element ''URL'' (Some (url c)) [],
                       Element ''Timestamp'' (Some (timestamp c)) [],
                       Element ''Status'' (Some (status c)) [],
                       Element ''HashDetails'' (Some (hash_change c)) []]) changes)) \<and>
      (if changes \<noteq> []
       then \<exists>ds. status_text = ds @ '' Change(s) or Initial Check(s) Detected.'' \<and>
              ds \<noteq> [] \<and> set ds \<subseteq> set ''0123456789'' \<and> hd ds \<noteq> CHR ''0'' \<and>
              decimal_value ds = length changes
       else status_text = ''No changes detected since the last run.'')"
    by blast
  show "xml_output_file (main md5 w0) =
     xml_output_file (generate_xml_report
       (fst (check_targets md5 MONITORED_URLS (w0\<lparr>console := console w0 @ [Started]\<rparr>)))
       (snd (check_targets md5 MONITORED_URLS (w0\<lparr>console := console w0 @ [Started]\<rparr>))))"
    by (rule main_report)
  show "map name (fst (check_targets md5 targets w1)) =
     map fst (filter (\<lambda>item. \<not> unchanged md5 (remote w1) (snd (load (hash_storage_file w1))) item)
       targets)"
    by (rule run_names)
qed

text \<open>The report of the first run in the small world.\<close>

theorem report_shape_witness:
  "xml_output_file (main toy_md5 (toy_world Missing)) =
     Some (Element ''MonitoringReport'' None
       [Element ''Status'' (Some ''2 Change(s) or Initial Check(s) Detected.'') [],
        Element ''TimestampGenerated'' (Some ''T2'') [],
        Element ''ChangeItem'' None
          [Element ''Name'' (Some ''Google_Homepage'') [],
           Element ''URL'' (Some ''https://www.google.com'') [],
           Element ''Timestamp'' (Some ''T0'') [],
           Element ''Status'' (Some ''Initial Check (No history recorded)'') [],
           Element ''HashDetails'' (Some ''Initial Hash: digest-o...'') []],
        Element ''ChangeItem'' None
          [Element ''Name'' (Some ''UWM Press Releases'') [],
           Element ''URL'' (Some ''https://www.uwm.com/press-releases'') [],
           Element ''Timestamp'' (Some ''T1'') [],
           Element ''Status'' (Some ''Error: timed out'') [],
           Element ''HashDetails'' (Some ''N/A'') []]])"
  using report_shape [of "[]" "toy_world Missing" toy_md5 "toy_world Missing" MONITORED_URLS
      "toy_world Missing"]
  by (simp add: main_def check_for_changes_def check_targets_def MONITORED_URLS_def load_def
      toy_world_def toy_remote_def toy_md5_def loop_body_def Let_def str.simps digit_def
      generate_xml_report_def SubElement_def change_item_def)

end
